theory Spec2Isabelle
  imports Main "HOL-Library.AList"
begin

section \<open>JavaScript values\<close>

text \<open>
  The values that travel through the bridge are the payloads of \<^verbatim>\<open>MessageEvent\<close>s and
  the arguments of \<^verbatim>\<open>postMessage\<close>: data accepted by the structured clone algorithm,
  which the wire format of the bridge restricts to JSON-like values. Such a value is never a
  function and never a thenable with a callable \<^verbatim>\<open>then\<close>.

  A number is carried by its canonical rendering (the result of \<^verbatim>\<open>Number::toString\<close>):
  the code under study never computes with a number, it only passes numbers along or uses
  them as property keys. An object is its list of own properties in insertion order.
\<close>

datatype jsval =
    Undefined
  | Null
  | Bool bool
  | Num string
  | Str string
  | Arr "jsval list"
  | Obj "(string \<times> jsval) list"

text \<open>What a \<^verbatim>\<open>throw\<close> can carry: an \<^verbatim>\<open>Error\<close> object with its \<^verbatim>\<open>name\<close> and
  \<^verbatim>\<open>message\<close>, or any other value.\<close>

datatype thrown =
    ErrorObject string string
  | ThrownValue jsval

abbreviation TypeError :: "string \<Rightarrow> thrown" where
  "TypeError msg \<equiv> ErrorObject ''TypeError'' msg"

abbreviation ReferenceError :: "string \<Rightarrow> thrown" where
  "ReferenceError msg \<equiv> ErrorObject ''ReferenceError'' msg"

text \<open>\<^verbatim>\<open>Array.prototype.join\<close> with a separator, on strings already rendered.\<close>

fun join :: "string \<Rightarrow> string list \<Rightarrow> string" where
  "join sep [] = []"
| "join sep [x] = x"
| "join sep (x # y # ys) = x @ sep @ join sep (y # ys)"

text \<open>Evaluating a list of fallible results from left to right: the first throw wins.\<close>

fun render_all :: "(thrown + string) list \<Rightarrow> thrown + string list" where
  "render_all [] = Inr []"
| "render_all (Inl err # rs) = Inl err"
| "render_all (Inr x # rs) = (case render_all rs of Inl err \<Rightarrow> Inl err | Inr xs \<Rightarrow> Inr (x # xs))"

text \<open>
  The abstract operation \<^verbatim>\<open>ToString\<close>. An array joins its elements with a comma,
  \<^verbatim>\<open>null\<close> and \<^verbatim>\<open>undefined\<close> elements rendering as the empty string and every
  other element by \<^verbatim>\<open>ToString\<close>. A plain object is converted by its \<^verbatim>\<open>toString\<close>
  method: the inherited one gives \<^verbatim>\<open>[object Object]\<close>; an own property of that name
  shadows it, and since no value here is a function the own property is not callable, so the
  conversion finds no primitive and throws a \<^verbatim>\<open>TypeError\<close>.
\<close>

fun ToString :: "jsval \<Rightarrow> thrown + string" where
  "ToString Undefined = Inr ''undefined''"
| "ToString Null = Inr ''null''"
| "ToString (Bool b) = Inr (if b then ''true'' else ''false'')"
| "ToString (Num s) = Inr s"
| "ToString (Str s) = Inr s"
| "ToString (Arr xs) =
     (case render_all (map (\<lambda>x. if x = Undefined \<or> x = Null then Inr [] else ToString x) xs) of
        Inl err \<Rightarrow> Inl err
      | Inr ss \<Rightarrow> Inr (join '','' ss))"
| "ToString (Obj ps) =
     (case map_of ps ''toString'' of
        None \<Rightarrow> Inr ''[object Object]''
      | Some m \<Rightarrow> Inl (TypeError ''Cannot convert object to primitive value''))"

text \<open>\<^verbatim>\<open>o[k]\<close> with a value as key: the key is \<^verbatim>\<open>ToPropertyKey k\<close>, which for the
  values above is \<^verbatim>\<open>ToString k\<close>.\<close>

definition ToPropertyKey :: "jsval \<Rightarrow> thrown + string" where
  "ToPropertyKey k = ToString k"

text \<open>
  \<^verbatim>\<open>v.name\<close> for the property names the code reads from a payload or from
  \<^verbatim>\<open>process\<close> (\<^verbatim>\<open>type\<close>, \<^verbatim>\<open>response\<close>, \<^verbatim>\<open>status\<close>, \<^verbatim>\<open>id\<close>, \<^verbatim>\<open>env\<close>,
  \<^verbatim>\<open>NODE_ENV\<close>): reading a property of \<^verbatim>\<open>undefined\<close> or \<^verbatim>\<open>null\<close> throws a
  \<^verbatim>\<open>TypeError\<close>; an object yields its own property or \<^verbatim>\<open>undefined\<close>; a primitive or
  an array has none of these names, neither itself nor on its prototype.
\<close>

fun get_prop :: "jsval \<Rightarrow> string \<Rightarrow> thrown + jsval" where
  "get_prop Undefined name = Inl (TypeError (''Cannot read properties of undefined''))"
| "get_prop Null name = Inl (TypeError (''Cannot read properties of null''))"
| "get_prop (Obj ps) name = (case map_of ps name of None \<Rightarrow> Inr Undefined | Some v \<Rightarrow> Inr v)"
| "get_prop v name = Inr Undefined"

section \<open>The allow-list\<close>

text \<open>
  \<^verbatim>\<open>String.prototype.split\<close> with a one-character separator: every occurrence of the
  separator ends a token, so the empty string has the single token \<^verbatim>\<open>""\<close> and two
  adjacent separators enclose an empty token.
\<close>

fun split :: "string \<Rightarrow> char \<Rightarrow> string list" where
  "split [] sep = [[]]"
| "split (c # cs) sep =
     (if c = sep then [] # split cs sep
      else (case split cs sep of
              [] \<Rightarrow> [[c]]
            | t # ts \<Rightarrow> (c # t) # ts))"

text \<open>\<^verbatim>\<open>Array.prototype.some\<close>.\<close>

fun some :: "'a list \<Rightarrow> ('a \<Rightarrow> bool) \<Rightarrow> bool" where
  "some [] p = False"
| "some (x # xs) p = (if p x then True else some xs p)"

text \<open>
  What \<^verbatim>\<open>config.allowedDevelopmentDomains\<close> can hold at run time. The declared type is a
  string or a predicate on origins; the code tests \<^verbatim>\<open>typeof\<close> and compares the
  predicate's result with \<^verbatim>\<open>=== true\<close>, so the predicate may return any value and the
  option may hold any value. A predicate is taken to be a function of the origin alone that
  returns.
\<close>

datatype AllowedDevelopmentDomains =
    CString string
  | CFunction "string \<Rightarrow> jsval"
  | CUndefined
  | CNull
  | CBoolean bool
  | CNumber string
  | CObject "(string \<times> jsval) list"

fun typeof :: "AllowedDevelopmentDomains \<Rightarrow> string" where
  "typeof (CString s) = ''string''"
| "typeof (CFunction f) = ''function''"
| "typeof CUndefined = ''undefined''"
| "typeof CNull = ''object''"
| "typeof (CBoolean b) = ''boolean''"
| "typeof (CNumber n) = ''number''"
| "typeof (CObject ps) = ''object''"

fun checkAllowList :: "AllowedDevelopmentDomains \<Rightarrow> string \<Rightarrow> bool" where
  "checkAllowList (CString s) origin =
     some (split s CHR '' '') (\<lambda>permittedOrigin. permittedOrigin = origin)"
| "checkAllowList (CFunction f) origin = (f origin = Bool True)"
| "checkAllowList other origin = False"

text \<open>
  The specification's wording, for comparison: \<open>t\<close> is one of the space-separated tokens of
  \<open>s\<close> when it contains no space and occurs in \<open>s\<close> delimited on each side by a space or
  by the end of the string.
\<close>

definition space_separated_token :: "string \<Rightarrow> string \<Rightarrow> bool" where
  "space_separated_token s t \<longleftrightarrow>
     CHR '' '' \<notin> set t \<and>
     (\<exists>pre post. s = pre @ t @ post \<and>
        (pre = [] \<or> last pre = CHR '' '') \<and> (post = [] \<or> hd post = CHR '' ''))"

section \<open>Promises and the page\<close>

text \<open>
  A promise is pending, fulfilled with a value or rejected with a value. Promises live in a
  heap (a list, addressed by position); \<^verbatim>\<open>new Promise(executor)\<close> allocates the next
  address and hands the executor the promise's two resolving functions. Calling either of them
  on a pending promise settles it; on a settled promise the call does nothing. (The value is
  a \<open>jsval\<close>, so it is never a thenable and \<^verbatim>\<open>resolve\<close> fulfils at once.)
\<close>

datatype pstate = Pending | Fulfilled jsval | Rejected jsval

type_synonym promise = nat

datatype callback = ResolveOf promise | RejectOf promise

text \<open>A value \<^verbatim>\<open>{ resolve, reject }\<close> of the correlation table.\<close>

record entry =
  resolve :: callback
  reject :: callback

record MessageEvent =
  origin :: string
  data :: jsval

record ServerConfig =
  allowedDevelopmentDomains :: AllowedDevelopmentDomains

text \<open>
  The functions the class hands out: the production wrapper
  \<^verbatim>\<open>(...args) => new Promise(...)\<close> closed over \<^verbatim>\<open>functionName\<close>, and the function the
  proxy's \<^verbatim>\<open>get\<close> trap returns, closed over \<^verbatim>\<open>functionName\<close>, \<^verbatim>\<open>id\<close> and
  \<^verbatim>\<open>promise\<close>.
\<close>

datatype serverFn =
    HostWrapper string
  | BridgeCall string string promise

text \<open>\<^verbatim>\<open>_serverFunctions\<close>: a plain object built by the \<^verbatim>\<open>reduce\<close>, or
  \<^verbatim>\<open>new Proxy({}, handler)\<close>.\<close>

datatype ServerFunctions =
    PlainObject "(string \<times> serverFn) list"
  | ProxyObject

record Server =
  config :: "ServerConfig option"
  serverFunctions :: ServerFunctions

text \<open>
  The state of the page that the code reads and writes: \<^verbatim>\<open>window.gasStore\<close>, the promise
  heap, the message listeners registered with \<^verbatim>\<open>addEventListener\<close> (each is the
  \<^verbatim>\<open>receiveMessageHandler\<close> of one instance, identified by that instance's config),
  \<^verbatim>\<open>window.location.origin\<close>, and three logs: the calls of
  \<^verbatim>\<open>window.parent.postMessage\<close> (message and target origin), the calls of stored
  callbacks, and the calls handed to \<^verbatim>\<open>google.script.run\<close>.
\<close>

record window =
  gasStore :: "(string \<times> entry) list"
  promises :: "pstate list"
  listeners :: "ServerConfig option list"
  location_origin :: string
  posted :: "(jsval \<times> string) list"
  invocations :: "(callback \<times> jsval) list"
  host_calls :: "(string \<times> jsval list \<times> callback \<times> callback) list"

datatype completion = Returned | Threw thrown

definition new_promise :: "window \<Rightarrow> promise \<times> window" where
  "new_promise w = (length (promises w), w\<lparr>promises := promises w @ [Pending]\<rparr>)"

fun settle :: "callback \<Rightarrow> jsval \<Rightarrow> pstate list \<Rightarrow> pstate list" where
  "settle (ResolveOf p) v ps =
     (if p < length ps \<and> ps ! p = Pending then ps[p := Fulfilled v] else ps)"
| "settle (RejectOf p) v ps =
     (if p < length ps \<and> ps ! p = Pending then ps[p := Rejected v] else ps)"

text \<open>Calling a stored callback: the call is logged and the promise settled.\<close>

definition call :: "callback \<Rightarrow> jsval \<Rightarrow> window \<Rightarrow> window" where
  "call cb v w =
     w\<lparr>promises := settle cb v (promises w), invocations := invocations w @ [(cb, v)]\<rparr>"

section \<open>The message handler\<close>

text \<open>\<^verbatim>\<open>this._config?.allowedDevelopmentDomains\<close>.\<close>

definition config_allowedDevelopmentDomains :: "ServerConfig option \<Rightarrow> AllowedDevelopmentDomains" where
  "config_allowedDevelopmentDomains cfg =
     (case cfg of None \<Rightarrow> CUndefined | Some c \<Rightarrow> allowedDevelopmentDomains c)"

text \<open>
  \<^verbatim>\<open>receiveMessageHandler\<close> of an instance constructed with \<open>cfg\<close>. The lookup
  \<^verbatim>\<open>window.gasStore[id]\<close> first converts \<^verbatim>\<open>id\<close> to a property key, which can
  throw; with an unknown key it is \<^verbatim>\<open>undefined\<close>, and destructuring
  \<^verbatim>\<open>undefined\<close> throws a \<^verbatim>\<open>TypeError\<close>. (A key inherited from
  \<^verbatim>\<open>Object.prototype\<close>, such as \<^verbatim>\<open>constructor\<close>, yields an object without
  \<^verbatim>\<open>resolve\<close> and \<^verbatim>\<open>reject\<close>; the \<^verbatim>\<open>TypeError\<close> is then thrown by the first call
  instead. Message texts follow V8; the general statements below depend only on the kind of
  error.)
\<close>

definition receiveMessageHandler ::
  "ServerConfig option \<Rightarrow> MessageEvent \<Rightarrow> window \<Rightarrow> completion \<times> window" where
  "receiveMessageHandler cfg event w =
     (let allowOrigin = checkAllowList (config_allowedDevelopmentDomains cfg) (origin event)
      in if \<not> allowOrigin then (Returned, w)
         else (case get_prop (data event) ''type'' of
                 Inl err \<Rightarrow> (Threw err, w)
               | Inr ty \<Rightarrow>
                   if ty \<noteq> Str ''RESPONSE'' then (Returned, w)
                   else (case get_prop (data event) ''response'' of
                      Inl err \<Rightarrow> (Threw err, w)
                    | Inr response \<Rightarrow>
                   (case get_prop (data event) ''status'' of
                      Inl err \<Rightarrow> (Threw err, w)
                    | Inr status \<Rightarrow>
                   (case get_prop (data event) ''id'' of
                      Inl err \<Rightarrow> (Threw err, w)
                    | Inr ident \<Rightarrow>
                   (case ToPropertyKey ident of
                      Inl err \<Rightarrow> (Threw err, w)
                    | Inr key \<Rightarrow>
                   (case map_of (gasStore w) key of
                      None \<Rightarrow>
                        (Threw (TypeError ''Cannot destructure property resolve of undefined''), w)
                    | Some e \<Rightarrow>
                        (let w1 = (if status = Str ''ERROR''
                                   then call (reject e) response w else w)
                         in (Returned, call (resolve e) response w1)))))))))"

section \<open>The proxy of the development bridge\<close>

text \<open>
  The \<^verbatim>\<open>get\<close> trap of the proxy. \<open>uuid\<close> is the string this call of \<^verbatim>\<open>uuidv4()\<close>
  returns (a random value, so an input of the model). The executor of
  \<^verbatim>\<open>new Promise\<close> runs at once and stores the entry; assigning to an existing key
  replaces its value.
\<close>

definition handler_get :: "string \<Rightarrow> string \<Rightarrow> window \<Rightarrow> serverFn \<times> window" where
  "handler_get functionName uuid w =
     (let ident = uuid;
          (promise, w1) = new_promise w;
          w2 = w1\<lparr>gasStore :=
                  AList.update ident \<lparr>resolve = ResolveOf promise, reject = RejectOf promise\<rparr>
                    (gasStore w1)\<rparr>
      in (BridgeCall functionName ident promise, w2))"

definition request :: "string \<Rightarrow> string \<Rightarrow> jsval list \<Rightarrow> jsval" where
  "request ident functionName args =
     Obj [(''type'', Str ''REQUEST''), (''id'', Str ident),
          (''functionName'', Str functionName), (''args'', Arr args)]"

text \<open>
  Calling one of the functions handed out. The bridge function posts the request to
  \<^verbatim>\<open>window.parent\<close> with target origin \<^verbatim>\<open>window.location.origin\<close> and returns the
  promise it was created with. The production wrapper makes a new promise and hands the call
  to \<^verbatim>\<open>google.script.run\<close> with the promise's resolving functions as success and failure
  handlers.
\<close>

fun invoke :: "serverFn \<Rightarrow> jsval list \<Rightarrow> window \<Rightarrow> promise \<times> window" where
  "invoke (BridgeCall functionName ident promise) args w =
     (promise,
      w\<lparr>posted := posted w @ [(request ident functionName args, location_origin w)]\<rparr>)"
| "invoke (HostWrapper functionName) args w =
     (let (p, w1) = new_promise w
      in (p, w1\<lparr>host_calls := host_calls w1 @ [(functionName, args, ResolveOf p, RejectOf p)]\<rparr>))"

text \<open>Calling the same function once for each argument list, in order.\<close>

fun invoke_all :: "serverFn \<Rightarrow> jsval list list \<Rightarrow> window \<Rightarrow> promise list \<times> window" where
  "invoke_all f [] w = ([], w)"
| "invoke_all f (args # rest) w =
     (let (p, w1) = invoke f args w; (ps, w2) = invoke_all f rest w1 in (p # ps, w2))"

section \<open>Construction\<close>

definition ignoredFunctionNames :: "string list" where
  "ignoredFunctionNames =
     [''withFailureHandler'', ''withLogger'', ''withSuccessHandler'', ''withUserObject'']"

text \<open>\<^verbatim>\<open>Array.prototype.includes\<close>.\<close>

fun includes_name :: "'a list \<Rightarrow> 'a \<Rightarrow> bool" where
  "includes_name [] y = False"
| "includes_name (x # xs) y = (if x = y then True else includes_name xs y)"

text \<open>
  The callback of the \<^verbatim>\<open>reduce\<close>. The object literal \<^verbatim>\<open>{...acc, [functionName]: f}\<close>
  copies the accumulator and then sets the property, which replaces the value of a key that
  is already there.
\<close>

definition reducer :: "(string \<times> serverFn) list \<Rightarrow> string \<Rightarrow> (string \<times> serverFn) list" where
  "reducer acc functionName =
     (if includes_name ignoredFunctionNames functionName then acc
      else AList.update functionName (HostWrapper functionName) acc)"

text \<open>
  \<^verbatim>\<open>err.toString()\<close>, a method call on what was thrown. An error object answers with
  \<^verbatim>\<open>Error.prototype.toString\<close>. On \<^verbatim>\<open>undefined\<close> or \<^verbatim>\<open>null\<close> the property
  read throws. A plain object answers \<^verbatim>\<open>[object Object]\<close> through the inherited method,
  unless it has an own property \<^verbatim>\<open>toString\<close>: that one is not a function, and calling
  it throws a \<^verbatim>\<open>TypeError\<close>. A primitive or an array answers as \<^verbatim>\<open>ToString\<close> does.
\<close>

fun err_toString :: "thrown \<Rightarrow> thrown + string" where
  "err_toString (ErrorObject name msg) =
     Inr (if name = [] then msg else if msg = [] then name else name @ '': '' @ msg)"
| "err_toString (ThrownValue Undefined) =
     Inl (TypeError ''Cannot read properties of undefined'')"
| "err_toString (ThrownValue Null) = Inl (TypeError ''Cannot read properties of null'')"
| "err_toString (ThrownValue (Obj ps)) =
     (case map_of ps ''toString'' of
        None \<Rightarrow> Inr ''[object Object]''
      | Some m \<Rightarrow> Inl (TypeError ''err.toString is not a function''))"
| "err_toString (ThrownValue v) = ToString v"

text \<open>
  The identifier \<^verbatim>\<open>process\<close> is either not declared at all, or bound to a value.
  \<^verbatim>\<open>process?.env.NODE_ENV\<close> throws a \<^verbatim>\<open>ReferenceError\<close> in the first case (optional
  chaining does not guard an undeclared identifier), is \<^verbatim>\<open>undefined\<close> when the value is
  \<^verbatim>\<open>undefined\<close> or \<^verbatim>\<open>null\<close>, and otherwise reads \<^verbatim>\<open>env\<close> and then
  \<^verbatim>\<open>NODE_ENV\<close>.
\<close>

datatype process_binding = Undeclared | Declared jsval

fun NODE_ENV :: "process_binding \<Rightarrow> thrown + jsval" where
  "NODE_ENV Undeclared = Inl (ReferenceError ''process is not defined'')"
| "NODE_ENV (Declared v) =
     (if v = Undefined \<or> v = Null then Inr Undefined
      else (case get_prop v ''env'' of
              Inl err \<Rightarrow> Inl err
            | Inr env \<Rightarrow> get_prop env ''NODE_ENV''))"

text \<open>
  The constructor. \<open>keys\<close> is the outcome of evaluating
  \<^verbatim>\<open>Object.keys(google.script.run)\<close> in the page: the enumerable names of the host object,
  or what the evaluation throws (\<^verbatim>\<open>ReferenceError: google is not defined\<close> when the global
  is missing). The field initialiser sets \<^verbatim>\<open>_serverFunctions\<close> to \<^verbatim>\<open>{}\<close> before the
  body runs. The \<^verbatim>\<open>catch\<close> block has no \<^verbatim>\<open>else\<close> and no \<^verbatim>\<open>throw\<close>: when its
  condition is false the block ends and the constructor returns. The result is the instance,
  or what the constructor itself throws.
\<close>

definition constructor ::
  "ServerConfig option \<Rightarrow> thrown + string list \<Rightarrow> process_binding \<Rightarrow> window
     \<Rightarrow> (thrown + Server) \<times> window" where
  "constructor cfg keys process w =
     (case keys of
        Inr names \<Rightarrow>
          (Inr \<lparr>config = cfg, serverFunctions = PlainObject (foldl reducer [] names)\<rparr>, w)
      | Inl err \<Rightarrow>
          (case err_toString err of
             Inl err' \<Rightarrow> (Inl err', w)
           | Inr s \<Rightarrow>
               if s = ''ReferenceError: google is not defined'' then
                 (case NODE_ENV process of
                    Inl err' \<Rightarrow> (Inl err', w)
                  | Inr env \<Rightarrow>
                      if env = Str ''development'' then
                        (Inr \<lparr>config = cfg, serverFunctions = ProxyObject\<rparr>,
                         w\<lparr>gasStore := [], listeners := listeners w @ [cfg]\<rparr>)
                      else (Inr \<lparr>config = cfg, serverFunctions = PlainObject []\<rparr>, w))
               else (Inr \<lparr>config = cfg, serverFunctions = PlainObject []\<rparr>, w)))"

section \<open>Runs of the development bridge\<close>

text \<open>
  What happens on a page while a bridge is installed, one event-loop task at a time: a
  property of the proxy is read (with the string \<^verbatim>\<open>uuidv4()\<close> returns), a function that
  was handed out is called, or a message event is delivered to the handler of the instance
  with the given config.
\<close>

datatype action =
    Get string string
  | Invoke serverFn "jsval list"
  | Message "ServerConfig option" MessageEvent

fun step :: "action \<Rightarrow> window \<Rightarrow> window" where
  "step (Get functionName uuid) w = snd (handler_get functionName uuid w)"
| "step (Invoke f args) w = snd (invoke f args w)"
| "step (Message cfg event) w = snd (receiveMessageHandler cfg event w)"

fun run :: "action list \<Rightarrow> window \<Rightarrow> window" where
  "run [] w = w"
| "run (a # as) w = run as (step a w)"

text \<open>
  A message is a matching response for \<open>ident\<close>, as seen by the handler of the instance with
  config \<open>cfg\<close>, when it passes the allow-list, has type \<^verbatim>\<open>RESPONSE\<close> and its \<^verbatim>\<open>id\<close>
  names the key \<open>ident\<close>.
\<close>

definition matching_response :: "string \<Rightarrow> action \<Rightarrow> bool" where
  "matching_response ident a =
     (case a of
        Message cfg event \<Rightarrow>
          checkAllowList (config_allowedDevelopmentDomains cfg) (origin event)
          \<and> get_prop (data event) ''type'' = Inr (Str ''RESPONSE'')
          \<and> (case get_prop (data event) ''id'' of
               Inr i \<Rightarrow> ToPropertyKey i = Inr ident
             | Inl err \<Rightarrow> False)
      | _ \<Rightarrow> False)"

text \<open>
  Every entry of the table holds the two resolving functions of one promise of the heap, as
  the \<^verbatim>\<open>get\<close> trap stores them.
\<close>

definition well_formed :: "window \<Rightarrow> bool" where
  "well_formed w \<longleftrightarrow>
     (\<forall>(k, e) \<in> set (gasStore w).
        \<exists>p < length (promises w). resolve e = ResolveOf p \<and> reject e = RejectOf p)"

section \<open>The wire format and an example page\<close>

text \<open>A response message of the wire format,
  \<^verbatim>\<open>{ type: "RESPONSE", id, status, response }\<close>.\<close>

definition response_message :: "jsval \<Rightarrow> jsval \<Rightarrow> jsval \<Rightarrow> jsval" where
  "response_message ident status response =
     Obj [(''type'', Str ''RESPONSE''), (''id'', ident), (''status'', status),
          (''response'', response)]"

definition throws_TypeError :: "completion \<Rightarrow> bool" where
  "throws_TypeError c =
     (case c of
        Threw (ErrorObject name msg) \<Rightarrow> name = ''TypeError''
      | _ \<Rightarrow> False)"

text \<open>A page of the development server, used to evaluate the definitions: one instance
  with a string allow-list and one call outstanding under the key \<^verbatim>\<open>id-1\<close>.\<close>

definition example_config :: "ServerConfig option" where
  "example_config =
     Some \<lparr>allowedDevelopmentDomains = CString ''https://localhost:3000 http://localhost:3000''\<rparr>"

definition example_window :: window where
  "example_window =
     \<lparr>gasStore = [(''id-1'', \<lparr>resolve = ResolveOf 0, reject = RejectOf 0\<rparr>)],
      promises = [Pending],
      listeners = [example_config],
      location_origin = ''https://localhost:3000'',
      posted = [],
      invocations = [],
      host_calls = []\<rparr>"

definition example_process :: "string \<Rightarrow> process_binding" where
  "example_process mode = Declared (Obj [(''env'', Obj [(''NODE_ENV'', Str mode)])])"

text \<open>
  The promise \<open>p\<close> is pending and no entry under a key other than \<open>ident\<close> holds one of
  its resolving functions: the invariant behind "pending until a matching response arrives".
\<close>

definition isolated :: "promise \<Rightarrow> string \<Rightarrow> window \<Rightarrow> bool" where
  "isolated p ident w \<longleftrightarrow>
     p < length (promises w) \<and> promises w ! p = Pending \<and>
     (\<forall>(k, e) \<in> set (gasStore w).
        k \<noteq> ident \<longrightarrow> resolve e \<notin> {ResolveOf p, RejectOf p}
                      \<and> reject e \<notin> {ResolveOf p, RejectOf p})"

section \<open>Tokens of the allow-list string\<close>

lemma split_not_Nil: "split s sep \<noteq> []"
  by (induction s) (auto split: list.splits)

lemma split_no_sep: "t \<in> set (split s sep) \<Longrightarrow> sep \<notin> set t"
proof (induction s arbitrary: t)
  case Nil
  then show ?case by simp
next
  case (Cons c cs)
  then show ?case
    by (cases "split cs sep") (auto simp: split_not_Nil split: if_splits)
qed

lemma join_Cons: "ys \<noteq> [] \<Longrightarrow> join sep (x # ys) = x @ sep @ join sep ys"
  by (cases ys) auto

lemma join_append:
  "xs \<noteq> [] \<Longrightarrow> ys \<noteq> [] \<Longrightarrow> join sep (xs @ ys) = join sep xs @ sep @ join sep ys"
proof (induction xs)
  case Nil
  then show ?case by simp
next
  case (Cons x xs)
  show ?case
  proof (cases "xs = []")
    case True
    with Cons.prems show ?thesis by (simp add: join_Cons)
  next
    case False
    with Cons show ?thesis by (simp add: join_Cons)
  qed
qed

text \<open>Joining the tokens with the separator gives the string back.\<close>

lemma join_split: "join [sep] (split s sep) = s"
proof (induction s)
  case Nil
  then show ?case by simp
next
  case (Cons c cs)
  show ?case
  proof (cases "c = sep")
    case True
    with Cons show ?thesis by (simp add: join_Cons split_not_Nil)
  next
    case False
    obtain t ts where ts: "split cs sep = t # ts"
      using split_not_Nil [of cs sep] by (cases "split cs sep") auto
    have "join [sep] ((c # t) # ts) = c # join [sep] (t # ts)"
      by (cases ts) auto
    with Cons False ts show ?thesis by simp
  qed
qed

lemma split_sep_free: "sep \<notin> set t \<Longrightarrow> split t sep = [t]"
  by (induction t) auto

lemma split_append_sep: "split (a @ sep # b) sep = split a sep @ split b sep"
proof (induction a)
  case Nil
  then show ?case by simp
next
  case (Cons c cs)
  obtain t ts where ts: "split cs sep = t # ts"
    using split_not_Nil [of cs sep] by (cases "split cs sep") auto
  with Cons show ?case by auto
qed

lemma token_in_split:
  assumes "sep \<notin> set t" and "s = pre @ t @ post"
    and "pre = [] \<or> last pre = sep" and "post = [] \<or> hd post = sep"
  shows "t \<in> set (split s sep)"
proof -
  have tail: "t \<in> set (split (t @ post) sep)"
  proof (cases post)
    case Nil
    with assms(1) show ?thesis by (simp add: split_sep_free)
  next
    case (Cons p ps)
    with assms(4) have "post = sep # ps" by simp
    with assms(1) show ?thesis by (simp add: split_append_sep split_sep_free)
  qed
  show ?thesis
  proof (cases "pre = []")
    case True
    with tail assms(2) show ?thesis by simp
  next
    case False
    with assms(3) have "pre = butlast pre @ [sep]"
      by (metis append_butlast_last_id)
    then have "s = butlast pre @ sep # (t @ post)"
      using assms(2) by (metis append.assoc append_Cons append_Nil)
    with tail show ?thesis by (simp add: split_append_sep)
  qed
qed

lemma split_token:
  assumes "t \<in> set (split s sep)"
  shows "\<exists>pre post. s = pre @ t @ post \<and> (pre = [] \<or> last pre = sep)
           \<and> (post = [] \<or> hd post = sep)"
proof -
  from assms obtain as bs where ab: "split s sep = as @ t # bs"
    by (meson split_list)
  define pre where "pre = (if as = [] then [] else join [sep] as @ [sep])"
  define post where "post = (if bs = [] then [] else sep # join [sep] bs)"
  have "join [sep] (as @ t # bs) = pre @ t @ post"
  proof (cases "as = []")
    case True
    then show ?thesis by (cases bs) (auto simp: pre_def post_def)
  next
    case False
    then show ?thesis
      by (cases bs) (auto simp: pre_def post_def join_append join_Cons)
  qed
  then have "s = pre @ t @ post"
    using join_split [of sep s] ab by simp
  moreover have "pre = [] \<or> last pre = sep" by (simp add: pre_def)
  moreover have "post = [] \<or> hd post = sep" by (simp add: post_def)
  ultimately show ?thesis by blast
qed

lemma some_iff: "some xs p \<longleftrightarrow> (\<exists>x \<in> set xs. p x)"
  by (induction xs) auto

lemma split_iff_token: "t \<in> set (split s CHR '' '') \<longleftrightarrow> space_separated_token s t"
  unfolding space_separated_token_def
  using split_no_sep split_token token_in_split by metis

lemma typeof_string: "typeof c = ''string'' \<longleftrightarrow> (\<exists>s. c = CString s)"
  by (cases c) auto

lemma typeof_function: "typeof c = ''function'' \<longleftrightarrow> (\<exists>f. c = CFunction f)"
  by (cases c) auto

text \<open>
  C3. \<open>checkAllowList\<close>, for every origin: a string configuration accepts exactly the
  space-separated tokens of the string; a function configuration accepts exactly the origins
  on which the function returns the boolean \<open>true\<close>; a configuration of any other type
  (\<open>undefined\<close> included) accepts no origin.
\<close>

theorem checkAllowList_cases:
  "(checkAllowList (CString s) sender \<longleftrightarrow> space_separated_token s sender) \<and>
   (checkAllowList (CFunction f) sender \<longleftrightarrow> f sender = Bool True) \<and>
   (typeof c \<noteq> ''string'' \<and> typeof c \<noteq> ''function'' \<longrightarrow> \<not> checkAllowList c sender)"
proof -
  have "checkAllowList (CString s) sender \<longleftrightarrow> sender \<in> set (split s CHR '' '')"
    by (auto simp: some_iff)
  moreover have "typeof c \<noteq> ''string'' \<and> typeof c \<noteq> ''function'' \<longrightarrow> \<not> checkAllowList c sender"
    by (cases c) auto
  ultimately show ?thesis
    by (simp add: split_iff_token)
qed

theorem checkAllowList_cases_witness:
  "checkAllowList (CString ''https://a.com https://b.com'') ''https://a.com''
   \<and> space_separated_token ''https://a.com https://b.com'' ''https://a.com''
   \<and> \<not> space_separated_token ''https://a.com https://b.com'' ''https://c.com''
   \<and> typeof CUndefined \<noteq> ''string'' \<and> typeof CUndefined \<noteq> ''function''
   \<and> \<not> checkAllowList CUndefined ''https://a.com''"
  using checkAllowList_cases [of "''https://a.com https://b.com''" "''https://a.com''"
      "\<lambda>x. Undefined" CUndefined]
    checkAllowList_cases [of "''https://a.com https://b.com''" "''https://c.com''"
      "\<lambda>x. Undefined" CUndefined]
  by simp

section \<open>The message handler: what one delivery does\<close>

lemma get_prop_response_message [simp]:
  "get_prop (response_message i s r) ''type'' = Inr (Str ''RESPONSE'')"
  "get_prop (response_message i s r) ''id'' = Inr i"
  "get_prop (response_message i s r) ''status'' = Inr s"
  "get_prop (response_message i s r) ''response'' = Inr r"
  by (simp_all add: response_message_def)

lemma example_allowed [simp]:
  "checkAllowList (config_allowedDevelopmentDomains example_config) ''http://localhost:3000''"
  "\<not> checkAllowList (config_allowedDevelopmentDomains example_config) ''https://evil.example''"
  by (simp_all add: example_config_def config_allowedDevelopmentDomains_def)

lemma example_window_simps [simp]:
  "gasStore example_window = [(''id-1'', \<lparr>resolve = ResolveOf 0, reject = RejectOf 0\<rparr>)]"
  "promises example_window = [Pending]"
  "posted example_window = []"
  "invocations example_window = []"
  "location_origin example_window = ''https://localhost:3000''"
  by (simp_all add: example_window_def)

lemma well_formed_example: "well_formed example_window"
  by (simp add: well_formed_def)

lemma get_prop_type_Obj:
  "get_prop d name = Inr (Str s) \<Longrightarrow> \<exists>ps. d = Obj ps"
  by (cases d) auto

lemma get_prop_Obj_total: "\<exists>v. get_prop (Obj ps) name = Inr v"
  by (simp split: option.splits)

lemma render_all_Inl: "render_all rs = Inl err \<Longrightarrow> Inl err \<in> set rs"
  by (induction rs rule: render_all.induct) (auto split: sum.splits)

text \<open>Whatever \<open>ToString\<close> throws is a \<open>TypeError\<close>.\<close>

lemma ToString_Inl: "ToString v = Inl err \<Longrightarrow> \<exists>msg. err = TypeError msg"
proof (induction v rule: ToString.induct)
  case (6 xs)
  from "6.prems" have "render_all (map (\<lambda>x. if x = Undefined \<or> x = Null then Inr []
      else ToString x) xs) = Inl err"
    by (simp split: sum.splits)
  then have "Inl err \<in> set (map (\<lambda>x. if x = Undefined \<or> x = Null then Inr []
      else ToString x) xs)"
    by (rule render_all_Inl)
  then obtain x where "x \<in> set xs" "\<not> (x = Undefined \<or> x = Null)" "ToString x = Inl err"
    by (auto split: if_splits)
  then show ?case
    using "6.IH" by blast
qed (auto split: option.splits)

lemma ToPropertyKey_Str [simp]: "ToPropertyKey (Str s) = Inr s"
  by (simp add: ToPropertyKey_def)

lemma handler_key_throws:
  assumes "checkAllowList (config_allowedDevelopmentDomains cfg) (origin event)"
    and "get_prop (data event) ''type'' = Inr (Str ''RESPONSE'')"
    and "get_prop (data event) ''response'' = Inr response"
    and "get_prop (data event) ''status'' = Inr status"
    and "get_prop (data event) ''id'' = Inr ident"
    and "ToPropertyKey ident = Inl err"
  shows "receiveMessageHandler cfg event w = (Threw err, w)"
  using assms by (simp add: receiveMessageHandler_def Let_def)

lemma handler_accepted:
  assumes "checkAllowList (config_allowedDevelopmentDomains cfg) (origin event)"
    and "get_prop (data event) ''type'' = Inr (Str ''RESPONSE'')"
    and "get_prop (data event) ''response'' = Inr response"
    and "get_prop (data event) ''status'' = Inr status"
    and "get_prop (data event) ''id'' = Inr ident"
    and "ToPropertyKey ident = Inr key"
  shows "receiveMessageHandler cfg event w =
     (case map_of (gasStore w) key of
        None \<Rightarrow> (Threw (TypeError ''Cannot destructure property resolve of undefined''), w)
      | Some e \<Rightarrow>
          (Returned,
           call (resolve e) response
             (if status = Str ''ERROR'' then call (reject e) response w else w)))"
  using assms by (simp add: receiveMessageHandler_def Let_def split: option.splits)

lemma handler_dropped:
  assumes "\<not> checkAllowList (config_allowedDevelopmentDomains cfg) (origin event)
           \<or> get_prop (data event) ''type'' \<noteq> Inr (Str ''RESPONSE'')"
  shows "snd (receiveMessageHandler cfg event w) = w"
  using assms by (auto simp: receiveMessageHandler_def Let_def split: sum.splits)

lemma settle_length [simp]: "length (settle cb v ps) = length ps"
  by (cases cb) auto

lemma settle_other:
  "cb \<noteq> ResolveOf p \<Longrightarrow> cb \<noteq> RejectOf p \<Longrightarrow> settle cb v ps ! p = ps ! p"
  by (cases cb) auto

lemma call_simps [simp]:
  "gasStore (call cb v w) = gasStore w"
  "promises (call cb v w) = settle cb v (promises w)"
  "posted (call cb v w) = posted w"
  "listeners (call cb v w) = listeners w"
  "location_origin (call cb v w) = location_origin w"
  "invocations (call cb v w) = invocations w @ [(cb, v)]"
  by (simp_all add: call_def)

text \<open>A delivery either leaves the page as it was or calls the callbacks of the entry
  found under the key of the message; it never touches the table or the size of the heap.\<close>

lemma handler_cases:
  "snd (receiveMessageHandler cfg event w) = w \<or>
   (\<exists>response status ident key e.
      checkAllowList (config_allowedDevelopmentDomains cfg) (origin event) \<and>
      get_prop (data event) ''type'' = Inr (Str ''RESPONSE'') \<and>
      get_prop (data event) ''id'' = Inr ident \<and>
      ToPropertyKey ident = Inr key \<and>
      map_of (gasStore w) key = Some e \<and>
      snd (receiveMessageHandler cfg event w) =
        call (resolve e) response
          (if status = Str ''ERROR'' then call (reject e) response w else w))"
  by (auto simp: receiveMessageHandler_def Let_def split: sum.splits option.splits)

lemma handler_gasStore [simp]: "gasStore (snd (receiveMessageHandler cfg event w)) = gasStore w"
  using handler_cases [of cfg event w] by auto

lemma handler_length [simp]:
  "length (promises (snd (receiveMessageHandler cfg event w))) = length (promises w)"
  using handler_cases [of cfg event w] by auto

text \<open>
  C1, as the code has it. An event that passes the allow-list and has type \<open>RESPONSE\<close> but
  whose \<open>id\<close> names no key of the table makes the handler throw a \<open>TypeError\<close> (the lookup
  is \<open>undefined\<close> and cannot be destructured; an \<open>id\<close> that cannot be converted to a key
  at all throws at the conversion). It throws before any callback is called: the page is left
  as it was, so no promise under any id is resolved or rejected and the table is unchanged.
\<close>

theorem unknown_id_throws:
  assumes "checkAllowList (config_allowedDevelopmentDomains cfg) (origin event)"
    and "get_prop (data event) ''type'' = Inr (Str ''RESPONSE'')"
    and "get_prop (data event) ''id'' = Inr ident"
    and "case ToPropertyKey ident of
           Inr key \<Rightarrow> map_of (gasStore w) key = None
         | Inl err \<Rightarrow> True"
  shows "throws_TypeError (fst (receiveMessageHandler cfg event w))
       \<and> snd (receiveMessageHandler cfg event w) = w"
proof -
  from assms(2) obtain ps where d: "data event = Obj ps"
    using get_prop_type_Obj by blast
  obtain response where r: "get_prop (data event) ''response'' = Inr response"
    using get_prop_Obj_total [of ps] d by auto
  obtain status where s: "get_prop (data event) ''status'' = Inr status"
    using get_prop_Obj_total [of ps] d by auto
  show ?thesis
  proof (cases "ToPropertyKey ident")
    case (Inl err)
    then obtain msg where "err = TypeError msg"
      using ToString_Inl [of ident err] by (auto simp: ToPropertyKey_def)
    with handler_key_throws [OF assms(1,2) r s assms(3) Inl, of w] show ?thesis
      by (simp add: throws_TypeError_def)
  next
    case (Inr key)
    with assms(4) have "map_of (gasStore w) key = None" by simp
    with handler_accepted [OF assms(1,2) r s assms(3) Inr, of w] show ?thesis
      by (simp add: throws_TypeError_def)
  qed
qed

theorem unknown_id_throws_witness:
  "checkAllowList (config_allowedDevelopmentDomains example_config) ''http://localhost:3000''
   \<and> ToPropertyKey (Str ''id-2'') = Inr ''id-2''
   \<and> map_of (gasStore example_window) ''id-2'' = None
   \<and> throws_TypeError (fst (receiveMessageHandler example_config
        \<lparr>origin = ''http://localhost:3000'',
         data = response_message (Str ''id-2'') (Str ''OK'') (Num ''42'')\<rparr> example_window))
   \<and> snd (receiveMessageHandler example_config
        \<lparr>origin = ''http://localhost:3000'',
         data = response_message (Str ''id-2'') (Str ''OK'') (Num ''42'')\<rparr> example_window)
      = example_window"
  using unknown_id_throws [of example_config
      "\<lparr>origin = ''http://localhost:3000'',
        data = response_message (Str ''id-2'') (Str ''OK'') (Num ''42'')\<rparr>"
      "Str ''id-2''" example_window]
  by (simp add: ToPropertyKey_def)

theorem unknown_id_counterexample:
  "checkAllowList (config_allowedDevelopmentDomains example_config) ''http://localhost:3000''
   \<and> ''id-2'' \<notin> fst ` set (gasStore example_window)
   \<and> fst (receiveMessageHandler example_config
        \<lparr>origin = ''http://localhost:3000'',
         data = response_message (Str ''id-2'') (Str ''OK'') (Num ''42'')\<rparr> example_window)
      = Threw (TypeError ''Cannot destructure property resolve of undefined'')"
  by (simp add: receiveMessageHandler_def ToPropertyKey_def)

text \<open>
  C4. For a pending call registered under \<open>ident\<close> (the table holds the two resolving
  functions of a pending promise \<open>p\<close>), a response from an allowed origin with status
  \<open>OK\<close> and payload \<open>v\<close> fulfils \<open>p\<close> with exactly \<open>v\<close>, and one with status \<open>ERROR\<close>
  and payload \<open>e\<close> rejects \<open>p\<close> with exactly \<open>e\<close>.
\<close>

theorem response_settles_promise:
  assumes "checkAllowList (config_allowedDevelopmentDomains cfg) sender"
    and "map_of (gasStore w) ident = Some \<lparr>resolve = ResolveOf p, reject = RejectOf p\<rparr>"
    and "p < length (promises w)" and "promises w ! p = Pending"
  shows "(let (c, w1) = receiveMessageHandler cfg
                \<lparr>origin = sender, data = response_message (Str ident) (Str ''OK'') v\<rparr> w
          in c = Returned \<and> promises w1 ! p = Fulfilled v) \<and>
         (let (c, w1) = receiveMessageHandler cfg
                \<lparr>origin = sender, data = response_message (Str ident) (Str ''ERROR'') e\<rparr> w
          in c = Returned \<and> promises w1 ! p = Rejected e)"
proof -
  let ?ok = "\<lparr>origin = sender, data = response_message (Str ident) (Str ''OK'') v\<rparr>"
  let ?er = "\<lparr>origin = sender, data = response_message (Str ident) (Str ''ERROR'') e\<rparr>"
  have ok: "receiveMessageHandler cfg ?ok w =
      (Returned, call (ResolveOf p) v w)"
    using assms(1,2) handler_accepted [of cfg ?ok v "Str ''OK''" "Str ident" ident w]
    by simp
  have er: "receiveMessageHandler cfg ?er w =
      (Returned, call (ResolveOf p) e (call (RejectOf p) e w))"
    using assms(1,2) handler_accepted [of cfg ?er e "Str ''ERROR''" "Str ident" ident w]
    by simp
  have "promises (call (ResolveOf p) v w) ! p = Fulfilled v"
    using assms(3,4) by simp
  moreover have "promises (call (ResolveOf p) e (call (RejectOf p) e w)) ! p = Rejected e"
    using assms(3,4) by simp
  ultimately show ?thesis
    by (simp add: ok er)
qed

theorem response_settles_promise_witness:
  "checkAllowList (config_allowedDevelopmentDomains example_config) ''http://localhost:3000''
   \<and> map_of (gasStore example_window) ''id-1'' = Some \<lparr>resolve = ResolveOf 0, reject = RejectOf 0\<rparr>
   \<and> promises example_window ! 0 = Pending
   \<and> promises (snd (receiveMessageHandler example_config
        \<lparr>origin = ''http://localhost:3000'',
         data = response_message (Str ''id-1'') (Str ''OK'') (Num ''42'')\<rparr> example_window)) ! 0
      = Fulfilled (Num ''42'')
   \<and> promises (snd (receiveMessageHandler example_config
        \<lparr>origin = ''http://localhost:3000'',
         data = response_message (Str ''id-1'') (Str ''ERROR'') (Str ''boom'')\<rparr> example_window)) ! 0
      = Rejected (Str ''boom'')"
  using response_settles_promise [of example_config "''http://localhost:3000''" example_window
      "''id-1''" 0 "Num ''42''" "Str ''boom''"]
  by (simp add: split_beta)

text \<open>
  C5. For an accepted response (allowed origin, type \<open>RESPONSE\<close>, an \<open>id\<close> found in the
  table): with status \<open>ERROR\<close> the stored \<open>reject\<close> is called with the payload and then
  the stored \<open>resolve\<close> is called with the same payload; with any other status \<open>resolve\<close>
  alone is called.
\<close>

theorem error_path_calls_both:
  assumes "checkAllowList (config_allowedDevelopmentDomains cfg) (origin event)"
    and "get_prop (data event) ''type'' = Inr (Str ''RESPONSE'')"
    and "get_prop (data event) ''response'' = Inr response"
    and "get_prop (data event) ''status'' = Inr status"
    and "get_prop (data event) ''id'' = Inr ident"
    and "ToPropertyKey ident = Inr key"
    and "map_of (gasStore w) key = Some e"
  shows "invocations (snd (receiveMessageHandler cfg event w)) =
           invocations w @
             (if status = Str ''ERROR'' then [(reject e, response), (resolve e, response)]
              else [(resolve e, response)])"
  using handler_accepted [OF assms(1-6), of w] assms(7)
  by simp

theorem error_path_calls_both_witness:
  "invocations (snd (receiveMessageHandler example_config
        \<lparr>origin = ''http://localhost:3000'',
         data = response_message (Str ''id-1'') (Str ''ERROR'') (Str ''boom'')\<rparr> example_window))
     = [(RejectOf 0, Str ''boom''), (ResolveOf 0, Str ''boom'')]
   \<and> invocations (snd (receiveMessageHandler example_config
        \<lparr>origin = ''http://localhost:3000'',
         data = response_message (Str ''id-1'') (Str ''OK'') (Num ''42'')\<rparr> example_window))
     = [(ResolveOf 0, Num ''42'')]"
  using error_path_calls_both [of example_config
      "\<lparr>origin = ''http://localhost:3000'',
        data = response_message (Str ''id-1'') (Str ''ERROR'') (Str ''boom'')\<rparr>"
      "Str ''boom''" "Str ''ERROR''" "Str ''id-1''" "''id-1''" example_window
      "\<lparr>resolve = ResolveOf 0, reject = RejectOf 0\<rparr>"]
    error_path_calls_both [of example_config
      "\<lparr>origin = ''http://localhost:3000'',
        data = response_message (Str ''id-1'') (Str ''OK'') (Num ''42'')\<rparr>"
      "Num ''42''" "Str ''OK''" "Str ''id-1''" "''id-1''" example_window
      "\<lparr>resolve = ResolveOf 0, reject = RejectOf 0\<rparr>"]
  by simp

text \<open>
  C6, as the code has it. An event whose origin fails the allow-list, or whose payload does
  not read as type \<open>RESPONSE\<close>, leaves the page as it was: the table is not modified and no
  promise is resolved or rejected. The handler returns normally, except for a payload that is
  \<open>null\<close> or \<open>undefined\<close> from an allowed origin: reading its \<open>type\<close> throws a
  \<open>TypeError\<close>.
\<close>

theorem dropped_message_frame:
  assumes "\<not> checkAllowList (config_allowedDevelopmentDomains cfg) (origin event)
           \<or> get_prop (data event) ''type'' \<noteq> Inr (Str ''RESPONSE'')"
  shows "snd (receiveMessageHandler cfg event w) = w
       \<and> (if checkAllowList (config_allowedDevelopmentDomains cfg) (origin event)
               \<and> (data event = Undefined \<or> data event = Null)
           then throws_TypeError (fst (receiveMessageHandler cfg event w))
           else fst (receiveMessageHandler cfg event w) = Returned)"
  using assms
  by (cases "data event")
     (auto simp: receiveMessageHandler_def Let_def throws_TypeError_def
           split: sum.splits option.splits)

theorem dropped_message_frame_witness:
  "\<not> checkAllowList (config_allowedDevelopmentDomains example_config) ''https://evil.example''
   \<and> receiveMessageHandler example_config
        \<lparr>origin = ''https://evil.example'',
         data = response_message (Str ''id-1'') (Str ''OK'') (Num ''42'')\<rparr> example_window
      = (Returned, example_window)
   \<and> get_prop (request ''id-1'' ''myFunc'' []) ''type'' \<noteq> Inr (Str ''RESPONSE'')
   \<and> receiveMessageHandler example_config
        \<lparr>origin = ''http://localhost:3000'', data = request ''id-1'' ''myFunc'' []\<rparr> example_window
      = (Returned, example_window)"
  using dropped_message_frame [of example_config
      "\<lparr>origin = ''https://evil.example'',
        data = response_message (Str ''id-1'') (Str ''OK'') (Num ''42'')\<rparr>" example_window]
    dropped_message_frame [of example_config
      "\<lparr>origin = ''http://localhost:3000'', data = request ''id-1'' ''myFunc'' []\<rparr>"
      example_window]
  by (simp add: request_def prod_eq_iff)

theorem null_payload_counterexample:
  "get_prop Null ''type'' \<noteq> Inr (Str ''RESPONSE'')
   \<and> receiveMessageHandler example_config
        \<lparr>origin = ''http://localhost:3000'', data = Null\<rparr> example_window
      = (Threw (TypeError ''Cannot read properties of null''), example_window)"
  by (simp add: receiveMessageHandler_def)

section \<open>Runs of the bridge\<close>

lemma handler_get_eq:
  "handler_get functionName uuid w =
     (BridgeCall functionName uuid (length (promises w)),
      w\<lparr>promises := promises w @ [Pending],
        gasStore := AList.update uuid
          \<lparr>resolve = ResolveOf (length (promises w)), reject = RejectOf (length (promises w))\<rparr>
          (gasStore w)\<rparr>)"
  by (simp add: handler_get_def new_promise_def Let_def)

lemma set_update_entry: "set (AList.update k v al) \<subseteq> insert (k, v) (set al)"
  by (induction al) auto

lemma in_update_cases:
  "(k', e) \<in> set (AList.update k v al) \<Longrightarrow> (k' = k \<and> e = v) \<or> (k', e) \<in> set al"
  using set_update_entry [of k v al] by auto

lemma isolated_step:
  assumes "isolated p ident w" and "\<not> matching_response ident a"
  shows "isolated p ident (step a w)"
proof (cases a)
  case (Get functionName uuid)
  let ?q = "length (promises w)"
  let ?v = "\<lparr>resolve = ResolveOf ?q, reject = RejectOf ?q\<rparr>"
  let ?w = "w\<lparr>promises := promises w @ [Pending],
               gasStore := AList.update uuid ?v (gasStore w)\<rparr>"
  from assms(1) have p: "p < ?q" "promises w ! p = Pending"
    by (simp_all add: isolated_def)
  have "resolve e \<notin> {ResolveOf p, RejectOf p} \<and> reject e \<notin> {ResolveOf p, RejectOf p}"
    if "(k, e) \<in> set (gasStore ?w)" and "k \<noteq> ident" for k e
  proof -
    from that(1) have "(k = uuid \<and> e = ?v) \<or> (k, e) \<in> set (gasStore w)"
      by (auto dest: in_update_cases)
    then show ?thesis
    proof
      assume "k = uuid \<and> e = ?v"
      with p(1) show ?thesis by auto
    next
      assume "(k, e) \<in> set (gasStore w)"
      with assms(1) that(2) show ?thesis
        unfolding isolated_def by blast
    qed
  qed
  then have "isolated p ident ?w"
    using p unfolding isolated_def by (auto simp: nth_append)
  with Get show ?thesis by (simp add: handler_get_eq)
next
  case (Invoke f args)
  show ?thesis
  proof (cases f)
    case (HostWrapper n)
    with Invoke assms(1) show ?thesis
      by (auto simp: isolated_def new_promise_def nth_append)
  next
    case (BridgeCall n i q)
    with Invoke assms(1) show ?thesis
      by (auto simp: isolated_def)
  qed
next
  case (Message cfg event)
  from handler_cases [of cfg event w]
  show ?thesis
  proof
    assume "snd (receiveMessageHandler cfg event w) = w"
    with Message assms(1) show ?thesis by simp
  next
    assume "\<exists>response status ident key e.
      checkAllowList (config_allowedDevelopmentDomains cfg) (origin event) \<and>
      get_prop (data event) ''type'' = Inr (Str ''RESPONSE'') \<and>
      get_prop (data event) ''id'' = Inr ident \<and>
      ToPropertyKey ident = Inr key \<and>
      map_of (gasStore w) key = Some e \<and>
      snd (receiveMessageHandler cfg event w) =
        call (resolve e) response
          (if status = Str ''ERROR'' then call (reject e) response w else w)"
    then obtain response status i k e where
      acc: "checkAllowList (config_allowedDevelopmentDomains cfg) (origin event)"
        "get_prop (data event) ''type'' = Inr (Str ''RESPONSE'')"
        "get_prop (data event) ''id'' = Inr i"
      and k: "ToPropertyKey i = Inr k"
      and look: "map_of (gasStore w) k = Some e"
      and res: "snd (receiveMessageHandler cfg event w) =
        call (resolve e) response
          (if status = Str ''ERROR'' then call (reject e) response w else w)"
      by blast
    from acc k assms(2) Message have key: "k \<noteq> ident"
      by (simp add: matching_response_def)
    from look have "(k, e) \<in> set (gasStore w)"
      by (rule map_of_SomeD)
    with assms(1) key have e: "resolve e \<noteq> ResolveOf p" "resolve e \<noteq> RejectOf p"
      "reject e \<noteq> ResolveOf p" "reject e \<noteq> RejectOf p"
      unfolding isolated_def by auto
    have "isolated p ident (call (resolve e) response
          (if status = Str ''ERROR'' then call (reject e) response w else w))"
      using assms(1) e unfolding isolated_def by (simp add: settle_other)
    with Message res show ?thesis by simp
  qed
qed

lemma isolated_run:
  "isolated p ident w \<Longrightarrow> \<forall>a \<in> set as. \<not> matching_response ident a \<Longrightarrow> isolated p ident (run as w)"
  by (induction as arbitrary: w) (auto simp: isolated_step)

lemma isolated_after_get:
  assumes "well_formed w"
  shows "isolated (length (promises w)) uuid (snd (handler_get functionName uuid w))"
proof -
  let ?q = "length (promises w)"
  let ?v = "\<lparr>resolve = ResolveOf ?q, reject = RejectOf ?q\<rparr>"
  have "resolve e \<notin> {ResolveOf ?q, RejectOf ?q} \<and> reject e \<notin> {ResolveOf ?q, RejectOf ?q}"
    if "(k, e) \<in> set (AList.update uuid ?v (gasStore w))" and "k \<noteq> uuid" for k e
  proof -
    from that have "(k, e) \<in> set (gasStore w)"
      by (auto dest: in_update_cases)
    with assms obtain q where "q < ?q" "resolve e = ResolveOf q" "reject e = RejectOf q"
      unfolding well_formed_def by blast
    then show ?thesis by auto
  qed
  then show ?thesis
    unfolding isolated_def handler_get_eq by (auto simp: nth_append)
qed

lemma well_formed_step:
  assumes "well_formed w"
  shows "well_formed (step a w)"
proof (cases a)
  case (Get functionName uuid)
  let ?q = "length (promises w)"
  let ?v = "\<lparr>resolve = ResolveOf ?q, reject = RejectOf ?q\<rparr>"
  have "\<exists>q < Suc ?q. resolve e = ResolveOf q \<and> reject e = RejectOf q"
    if "(k, e) \<in> set (AList.update uuid ?v (gasStore w))" for k e
  proof -
    from that have "(k = uuid \<and> e = ?v) \<or> (k, e) \<in> set (gasStore w)"
      by (auto dest: in_update_cases)
    then show ?thesis
    proof
      assume "k = uuid \<and> e = ?v"
      then show ?thesis by auto
    next
      assume "(k, e) \<in> set (gasStore w)"
      with assms obtain q where "q < ?q" "resolve e = ResolveOf q" "reject e = RejectOf q"
        unfolding well_formed_def by blast
      then show ?thesis using less_Suc_eq by blast
    qed
  qed
  with Get show ?thesis
    unfolding well_formed_def by (auto simp: handler_get_eq)
next
  case (Invoke f args)
  show ?thesis
  proof (cases f)
    case (HostWrapper n)
    have "\<exists>q < Suc (length (promises w)). resolve e = ResolveOf q \<and> reject e = RejectOf q"
      if "(k, e) \<in> set (gasStore w)" for k e
    proof -
      from that assms obtain q where "q < length (promises w)" "resolve e = ResolveOf q"
        "reject e = RejectOf q"
        unfolding well_formed_def by blast
      then show ?thesis using less_Suc_eq by blast
    qed
    with Invoke HostWrapper show ?thesis
      unfolding well_formed_def by (auto simp: new_promise_def)
  next
    case (BridgeCall n i q)
    with Invoke assms show ?thesis
      unfolding well_formed_def by simp
  qed
next
  case (Message cfg event)
  with assms show ?thesis
    unfolding well_formed_def by simp
qed

lemma well_formed_run: "well_formed w \<Longrightarrow> well_formed (run as w)"
  by (induction as arbitrary: w) (auto simp: well_formed_step)

text \<open>The table a bridge construction installs is empty, hence well formed: every page
  reached from a construction by a run has a well-formed table.\<close>

lemma well_formed_bridge_construction:
  "constructor cfg keys process w = (Inr \<lparr>config = cfg, serverFunctions = ProxyObject\<rparr>, w1)
     \<Longrightarrow> well_formed (run as w1)"
proof -
  assume c: "constructor cfg keys process w =
    (Inr \<lparr>config = cfg, serverFunctions = ProxyObject\<rparr>, w1)"
  then have "gasStore w1 = []"
    by (auto simp: constructor_def split: sum.splits if_splits)
  then have "well_formed w1"
    by (simp add: well_formed_def)
  then show ?thesis
    by (rule well_formed_run)
qed

text \<open>
  C7. In a page whose table is well formed, reading the property \<open>functionName\<close> of the proxy
  and calling the result with \<open>args\<close> posts exactly one message, the object with
  \<open>type\<close> \<open>REQUEST\<close>, \<open>id\<close> the new id, \<open>functionName\<close> that name and \<open>args\<close> the
  array of those arguments, to the parent frame with target origin
  \<open>window.location.origin\<close>; the promise returned is pending, and it stays pending through
  every run of the page in which no matching response for that id is delivered.
\<close>

theorem dev_bridge_call:
  assumes "well_formed w"
    and "handler_get functionName uuid w = (f, w1)" and "invoke f args w1 = (p, w2)"
  shows "posted w2 = posted w @
           [(Obj [(''type'', Str ''REQUEST''), (''id'', Str uuid),
                  (''functionName'', Str functionName), (''args'', Arr args)],
             location_origin w)]
       \<and> p < length (promises w2) \<and> promises w2 ! p = Pending
       \<and> (\<forall>as. (\<forall>a \<in> set as. \<not> matching_response uuid a)
             \<longrightarrow> promises (run as w2) ! p = Pending)"
proof -
  from assms(2) have f: "f = BridgeCall functionName uuid (length (promises w))"
    and w1: "w1 = snd (handler_get functionName uuid w)"
    by (simp_all add: handler_get_eq)
  from assms(3) f have p: "p = length (promises w)"
    and w2: "w2 = w1\<lparr>posted := posted w1 @ [(request uuid functionName args, location_origin w1)]\<rparr>"
    by auto
  have "isolated p uuid w1"
    using isolated_after_get [OF assms(1)] p w1 by simp
  then have iso: "isolated p uuid w2"
    by (simp add: w2 isolated_def)
  have post: "posted w2 = posted w @
           [(Obj [(''type'', Str ''REQUEST''), (''id'', Str uuid),
                  (''functionName'', Str functionName), (''args'', Arr args)],
             location_origin w)]"
    by (simp add: w2 w1 handler_get_eq request_def)
  have "\<forall>as. (\<forall>a \<in> set as. \<not> matching_response uuid a) \<longrightarrow> promises (run as w2) ! p = Pending"
    using isolated_run [OF iso] by (simp add: isolated_def)
  with iso post show ?thesis by (simp add: isolated_def)
qed

theorem dev_bridge_call_witness:
  "well_formed example_window
   \<and> handler_get ''myFunc'' ''id-2'' example_window =
       (BridgeCall ''myFunc'' ''id-2'' 1, snd (handler_get ''myFunc'' ''id-2'' example_window))
   \<and> posted (snd (invoke (BridgeCall ''myFunc'' ''id-2'' 1) [Num ''1'', Num ''2'']
        (snd (handler_get ''myFunc'' ''id-2'' example_window))))
      = [(Obj [(''type'', Str ''REQUEST''), (''id'', Str ''id-2''),
               (''functionName'', Str ''myFunc''), (''args'', Arr [Num ''1'', Num ''2''])],
          ''https://localhost:3000'')]
   \<and> \<not> matching_response ''id-2'' (Message example_config
        \<lparr>origin = ''http://localhost:3000'',
         data = response_message (Str ''id-1'') (Str ''OK'') (Num ''42'')\<rparr>)
   \<and> \<not> matching_response ''id-2'' (Message example_config
        \<lparr>origin = ''https://evil.example'',
         data = response_message (Str ''id-2'') (Str ''OK'') (Num ''42'')\<rparr>)
   \<and> promises (run
        [Message example_config
           \<lparr>origin = ''http://localhost:3000'',
            data = response_message (Str ''id-1'') (Str ''OK'') (Num ''42'')\<rparr>,
         Message example_config
           \<lparr>origin = ''https://evil.example'',
            data = response_message (Str ''id-2'') (Str ''OK'') (Num ''42'')\<rparr>]
        (snd (invoke (BridgeCall ''myFunc'' ''id-2'' 1) [Num ''1'', Num ''2'']
          (snd (handler_get ''myFunc'' ''id-2'' example_window))))) ! 1 = Pending"
proof -
  let ?w1 = "snd (handler_get ''myFunc'' ''id-2'' example_window)"
  let ?f = "BridgeCall ''myFunc'' ''id-2'' 1"
  let ?w2 = "snd (invoke ?f [Num ''1'', Num ''2''] ?w1)"
  let ?as = "[Message example_config
           \<lparr>origin = ''http://localhost:3000'',
            data = response_message (Str ''id-1'') (Str ''OK'') (Num ''42'')\<rparr>,
         Message example_config
           \<lparr>origin = ''https://evil.example'',
            data = response_message (Str ''id-2'') (Str ''OK'') (Num ''42'')\<rparr>]"
  have wf: "well_formed example_window"
    by (simp add: well_formed_def)
  have g: "handler_get ''myFunc'' ''id-2'' example_window = (?f, ?w1)"
    by (simp add: handler_get_eq)
  have i: "invoke ?f [Num ''1'', Num ''2''] ?w1 = (1, ?w2)"
    by simp
  have m: "\<forall>a \<in> set ?as. \<not> matching_response ''id-2'' a"
    by (simp add: matching_response_def ToPropertyKey_def)
  from dev_bridge_call [OF wf g i] m
  have "posted ?w2 = posted example_window @
          [(Obj [(''type'', Str ''REQUEST''), (''id'', Str ''id-2''),
                 (''functionName'', Str ''myFunc''), (''args'', Arr [Num ''1'', Num ''2''])],
            location_origin example_window)]"
    and "promises (run ?as ?w2) ! 1 = Pending"
    by blast+
  with wf g m show ?thesis by simp
qed

lemma step_keys: "fst ` set (gasStore w) \<subseteq> fst ` set (gasStore (step a w))"
proof (cases a)
  case (Get functionName uuid)
  then show ?thesis by (auto simp: handler_get_eq dom_update)
next
  case (Invoke f args)
  then show ?thesis by (cases f) (auto simp: new_promise_def)
next
  case (Message cfg event)
  then show ?thesis by simp
qed

lemma run_keys: "fst ` set (gasStore w) \<subseteq> fst ` set (gasStore (run as w))"
proof (induction as arbitrary: w)
  case Nil
  then show ?case by simp
next
  case (Cons a as)
  have "fst ` set (gasStore w) \<subseteq> fst ` set (gasStore (step a w))"
    by (rule step_keys)
  also have "\<dots> \<subseteq> fst ` set (gasStore (run as (step a w)))"
    by (rule Cons.IH)
  finally show ?case by simp
qed

lemma constructor_cases:
  "snd (constructor cfg keys process w) = w \<or>
   constructor cfg keys process w =
     (Inr \<lparr>config = cfg, serverFunctions = ProxyObject\<rparr>,
      w\<lparr>gasStore := [], listeners := listeners w @ [cfg]\<rparr>)"
  by (auto simp: constructor_def split: sum.splits)

lemma example_process_env [simp]:
  "NODE_ENV (example_process mode) = Inr (Str mode)"
  by (simp add: example_process_def)

text \<open>
  C9, as the code has it. No property read, call or message delivery removes an entry from
  the table: the set of keys only grows along a run, and a delivery (also one that settles a
  call) leaves the table as it is. A construction that does not install the bridge leaves
  the table alone as well; a construction that installs the bridge assigns a new, empty table.
\<close>

theorem table_never_shrinks_between_constructions:
  "fst ` set (gasStore w) \<subseteq> fst ` set (gasStore (run as w))
   \<and> gasStore (snd (receiveMessageHandler cfg event w)) = gasStore w
   \<and> (fst (constructor cfg keys process w) \<noteq> Inr \<lparr>config = cfg, serverFunctions = ProxyObject\<rparr>
        \<longrightarrow> gasStore (snd (constructor cfg keys process w)) = gasStore w)
   \<and> (fst (constructor cfg keys process w) = Inr \<lparr>config = cfg, serverFunctions = ProxyObject\<rparr>
        \<longrightarrow> gasStore (snd (constructor cfg keys process w)) = [])"
proof -
  have "gasStore (snd (constructor cfg keys process w)) = []"
    if "fst (constructor cfg keys process w) = Inr \<lparr>config = cfg, serverFunctions = ProxyObject\<rparr>"
    using that by (auto simp: constructor_def split: sum.splits if_splits)
  then show ?thesis
    using run_keys [of w as] constructor_cases [of cfg keys process w]
    by auto
qed

theorem table_never_shrinks_witness:
  "fst (constructor example_config (Inr [''getData'']) (example_process ''development'')
          example_window)
     \<noteq> Inr \<lparr>config = example_config, serverFunctions = ProxyObject\<rparr>
   \<and> gasStore (snd (constructor example_config (Inr [''getData''])
        (example_process ''development'') example_window)) = gasStore example_window
   \<and> fst (constructor example_config (Inl (ReferenceError ''google is not defined''))
          (example_process ''development'') example_window)
     = Inr \<lparr>config = example_config, serverFunctions = ProxyObject\<rparr>
   \<and> gasStore (snd (constructor example_config (Inl (ReferenceError ''google is not defined''))
        (example_process ''development'') example_window)) = []
   \<and> fst ` set (gasStore example_window) \<subseteq>
       fst ` set (gasStore (run
         [Get ''myFunc'' ''id-2'',
          Message example_config
            \<lparr>origin = ''http://localhost:3000'',
             data = response_message (Str ''id-1'') (Str ''OK'') (Num ''42'')\<rparr>]
         example_window))"
proof -
  let ?as = "[Get ''myFunc'' ''id-2'',
        Message example_config
          \<lparr>origin = ''http://localhost:3000'',
           data = response_message (Str ''id-1'') (Str ''OK'') (Num ''42'')\<rparr>]"
  let ?event = "\<lparr>origin = ''http://localhost:3000'',
        data = response_message (Str ''id-1'') (Str ''OK'') (Num ''42'')\<rparr>"
  have p: "fst (constructor example_config (Inr [''getData'']) (example_process ''development'')
          example_window)
     \<noteq> Inr \<lparr>config = example_config, serverFunctions = ProxyObject\<rparr>"
    by (simp add: constructor_def)
  have b: "fst (constructor example_config (Inl (ReferenceError ''google is not defined''))
          (example_process ''development'') example_window)
     = Inr \<lparr>config = example_config, serverFunctions = ProxyObject\<rparr>"
    by (simp add: constructor_def)
  from table_never_shrinks_between_constructions [of example_window ?as example_config ?event
      "Inr [''getData'']" "example_process ''development''"] p
  have 1: "gasStore (snd (constructor example_config (Inr [''getData''])
        (example_process ''development'') example_window)) = gasStore example_window"
    and 2: "fst ` set (gasStore example_window) \<subseteq> fst ` set (gasStore (run ?as example_window))"
    by blast+
  from table_never_shrinks_between_constructions [of example_window ?as example_config ?event
      "Inl (ReferenceError ''google is not defined'')" "example_process ''development''"] b
  have 3: "gasStore (snd (constructor example_config
        (Inl (ReferenceError ''google is not defined''))
        (example_process ''development'') example_window)) = []"
    by blast
  from p b 1 2 3 show ?thesis by blast
qed

theorem second_construction_counterexample:
  "''id-1'' \<in> fst ` set (gasStore example_window)
   \<and> ''id-1'' \<notin> fst ` set (gasStore (snd (constructor example_config
        (Inl (ReferenceError ''google is not defined'')) (example_process ''development'')
        example_window)))"
  by (simp add: constructor_def)

lemma invoke_all_bridge:
  "invoke_all (BridgeCall functionName ident p) argss w =
     (replicate (length argss) p,
      w\<lparr>posted := posted w @
           map (\<lambda>args. (request ident functionName args, location_origin w)) argss\<rparr>)"
proof (induction argss arbitrary: w)
  case Nil
  then show ?case by simp
next
  case (Cons args rest)
  then show ?case by simp
qed

text \<open>
  C10. The id and the promise are made when the property is read: the read alone stores the
  entry for the id (with the resolving functions of a new pending promise) and posts nothing;
  calling the one function it returns any number of times posts one message per call, each of
  type \<open>REQUEST\<close> and each carrying that same id, and every call returns that same promise.
\<close>

theorem id_and_promise_made_at_property_read:
  assumes "handler_get functionName uuid w = (f, w1)"
  shows "map_of (gasStore w1) uuid =
           Some \<lparr>resolve = ResolveOf (length (promises w)), reject = RejectOf (length (promises w))\<rparr>
       \<and> (\<forall>k. k \<noteq> uuid \<longrightarrow> map_of (gasStore w1) k = map_of (gasStore w) k)
       \<and> promises w1 = promises w @ [Pending]
       \<and> posted w1 = posted w
       \<and> (\<forall>argss. fst (invoke_all f argss w1) = replicate (length argss) (length (promises w))
            \<and> posted (snd (invoke_all f argss w1)) =
                posted w @
                  map (\<lambda>args. (Obj [(''type'', Str ''REQUEST''), (''id'', Str uuid),
                                     (''functionName'', Str functionName), (''args'', Arr args)],
                                location_origin w)) argss
            \<and> gasStore (snd (invoke_all f argss w1)) = gasStore w1
            \<and> promises (snd (invoke_all f argss w1)) = promises w1)"
  using assms by (auto simp: handler_get_eq invoke_all_bridge update_conv' request_def)

theorem id_and_promise_witness:
  "handler_get ''myFunc'' ''id-2'' example_window =
       (BridgeCall ''myFunc'' ''id-2'' 1, snd (handler_get ''myFunc'' ''id-2'' example_window))
   \<and> map_of (gasStore (snd (handler_get ''myFunc'' ''id-2'' example_window))) ''id-2''
       = Some \<lparr>resolve = ResolveOf 1, reject = RejectOf 1\<rparr>
   \<and> posted (snd (handler_get ''myFunc'' ''id-2'' example_window)) = []
   \<and> fst (invoke_all (BridgeCall ''myFunc'' ''id-2'' 1) [[Num ''1''], [Num ''2''], []]
        (snd (handler_get ''myFunc'' ''id-2'' example_window))) = [1, 1, 1]
   \<and> posted (snd (invoke_all (BridgeCall ''myFunc'' ''id-2'' 1) [[Num ''1''], [Num ''2''], []]
        (snd (handler_get ''myFunc'' ''id-2'' example_window))))
      = [(Obj [(''type'', Str ''REQUEST''), (''id'', Str ''id-2''),
               (''functionName'', Str ''myFunc''), (''args'', Arr [Num ''1''])],
          ''https://localhost:3000''),
         (Obj [(''type'', Str ''REQUEST''), (''id'', Str ''id-2''),
               (''functionName'', Str ''myFunc''), (''args'', Arr [Num ''2''])],
          ''https://localhost:3000''),
         (Obj [(''type'', Str ''REQUEST''), (''id'', Str ''id-2''),
               (''functionName'', Str ''myFunc''), (''args'', Arr [])],
          ''https://localhost:3000'')]"
proof -
  let ?w1 = "snd (handler_get ''myFunc'' ''id-2'' example_window)"
  let ?f = "BridgeCall ''myFunc'' ''id-2'' 1"
  let ?argss = "[[Num ''1''], [Num ''2''], []]"
  have g: "handler_get ''myFunc'' ''id-2'' example_window = (?f, ?w1)"
    by (simp add: handler_get_eq)
  note r = id_and_promise_made_at_property_read [OF g]
  from r have e: "map_of (gasStore ?w1) ''id-2''
      = Some \<lparr>resolve = ResolveOf (length (promises example_window)),
              reject = RejectOf (length (promises example_window))\<rparr>"
    and p: "posted ?w1 = posted example_window"
    by blast+
  from r have "fst (invoke_all ?f ?argss ?w1)
        = replicate (length ?argss) (length (promises example_window))
      \<and> posted (snd (invoke_all ?f ?argss ?w1))
        = posted example_window @
            map (\<lambda>args. (Obj [(''type'', Str ''REQUEST''), (''id'', Str ''id-2''),
                                (''functionName'', Str ''myFunc''), (''args'', Arr args)],
                          location_origin example_window)) ?argss"
    by blast
  with g e p show ?thesis
    by (simp add: numeral_3_eq_3)
qed

section \<open>Construction: the mapping and the catch block\<close>

lemma includes_name_iff: "includes_name xs y \<longleftrightarrow> y \<in> set xs"
  by (induction xs) auto

lemma reducer_map_of:
  "map_of (reducer acc x) n =
     (if n = x \<and> x \<notin> set ignoredFunctionNames then Some (HostWrapper x) else map_of acc n)"
  by (simp add: reducer_def includes_name_iff update_conv')

lemma foldl_reducer_map_of:
  "map_of (foldl reducer acc names) n =
     (if n \<in> set names \<and> n \<notin> set ignoredFunctionNames then Some (HostWrapper n)
      else map_of acc n)"
proof (induction names arbitrary: acc)
  case Nil
  then show ?case by simp
next
  case (Cons x xs)
  have "map_of (foldl reducer (reducer acc x) xs) n =
     (if n \<in> set xs \<and> n \<notin> set ignoredFunctionNames then Some (HostWrapper n)
      else map_of (reducer acc x) n)"
    by (rule Cons.IH)
  then show ?case
    by (auto simp: reducer_map_of)
qed

text \<open>
  C8. When the host object is present, the constructor returns an instance whose mapping has,
  for every enumerated name, a key of that name if and only if the name is not one of the four
  reserved names; the value under the key is the promise-returning wrapper of that name; no
  reserved name is a key, and every key is an enumerated name.
\<close>

theorem production_mapping:
  assumes "constructor cfg (Inr names) process w = (r, w1)"
  shows "\<exists>obj. r = Inr \<lparr>config = cfg, serverFunctions = PlainObject obj\<rparr> \<and> w1 = w
       \<and> (\<forall>n \<in> set names. (n \<in> fst ` set obj \<longleftrightarrow> n \<notin> set ignoredFunctionNames)
                           \<and> (n \<notin> set ignoredFunctionNames \<longrightarrow> map_of obj n = Some (HostWrapper n)))
       \<and> (\<forall>n \<in> set ignoredFunctionNames. n \<notin> fst ` set obj)
       \<and> (\<forall>n \<in> fst ` set obj. n \<in> set names)
       \<and> (\<forall>n args w'. fst (invoke (HostWrapper n) args w') = length (promises w')
             \<and> promises (snd (invoke (HostWrapper n) args w')) = promises w' @ [Pending])"
proof -
  let ?obj = "foldl reducer [] names"
  have m: "map_of ?obj n =
     (if n \<in> set names \<and> n \<notin> set ignoredFunctionNames then Some (HostWrapper n) else None)" for n
    by (simp add: foldl_reducer_map_of)
  have d: "n \<in> fst ` set ?obj \<longleftrightarrow> n \<in> set names \<and> n \<notin> set ignoredFunctionNames" for n
    using m [of n] by (simp add: dom_map_of_conv_image_fst [symmetric] domIff)
  have i: "fst (invoke (HostWrapper n) args w') = length (promises w')
      \<and> promises (snd (invoke (HostWrapper n) args w')) = promises w' @ [Pending]" for n args w'
    by (simp add: new_promise_def)
  from assms have "r = Inr \<lparr>config = cfg, serverFunctions = PlainObject ?obj\<rparr>" "w1 = w"
    by (simp_all add: constructor_def)
  with m d i show ?thesis by auto
qed

theorem production_mapping_witness:
  "constructor example_config
      (Inr [''getData'', ''withLogger'', ''setData'', ''withSuccessHandler'',
            ''withFailureHandler'', ''withUserObject''])
      Undeclared example_window
   = (Inr \<lparr>config = example_config,
           serverFunctions = PlainObject [(''getData'', HostWrapper ''getData''),
                                          (''setData'', HostWrapper ''setData'')]\<rparr>,
      example_window)"
proof -
  let ?names = "[''getData'', ''withLogger'', ''setData'', ''withSuccessHandler'',
            ''withFailureHandler'', ''withUserObject'']"
  have c: "constructor example_config (Inr ?names) Undeclared example_window =
    (Inr \<lparr>config = example_config,
           serverFunctions = PlainObject [(''getData'', HostWrapper ''getData''),
                                          (''setData'', HostWrapper ''setData'')]\<rparr>,
      example_window)"
    by (simp add: constructor_def reducer_def ignoredFunctionNames_def)
  from production_mapping [OF c] c show ?thesis by simp
qed

text \<open>
  C2, as the code has it. When the enumeration throws a value on which \<open>err.toString()\<close>
  returns a string other than \<open>ReferenceError: google is not defined\<close>, or returns that
  string while \<open>NODE_ENV\<close> reads as something other than \<open>development\<close>, the \<open>catch\<close>
  block discards it: the constructor returns an instance with the empty mapping and leaves
  the page as it was.
\<close>

theorem other_errors_are_swallowed:
  assumes "err_toString err = Inr s"
    and "s \<noteq> ''ReferenceError: google is not defined''
         \<or> (\<exists>env. NODE_ENV process = Inr env \<and> env \<noteq> Str ''development'')"
  shows "constructor cfg (Inl err) process w =
           (Inr \<lparr>config = cfg, serverFunctions = PlainObject []\<rparr>, w)"
  using assms by (auto simp: constructor_def)

theorem other_errors_are_swallowed_witness:
  "err_toString (TypeError ''Cannot read properties of undefined'')
     \<noteq> Inr ''ReferenceError: google is not defined''
   \<and> constructor example_config (Inl (TypeError ''Cannot read properties of undefined''))
        (example_process ''development'') example_window
      = (Inr \<lparr>config = example_config, serverFunctions = PlainObject []\<rparr>, example_window)
   \<and> err_toString (ReferenceError ''google is not defined'')
      = Inr ''ReferenceError: google is not defined''
   \<and> constructor example_config (Inl (ReferenceError ''google is not defined''))
        (example_process ''production'') example_window
      = (Inr \<lparr>config = example_config, serverFunctions = PlainObject []\<rparr>, example_window)"
  using other_errors_are_swallowed [of "TypeError ''Cannot read properties of undefined''"
      "''TypeError: Cannot read properties of undefined''" "example_process ''development''"
      example_config example_window]
    other_errors_are_swallowed [of "ReferenceError ''google is not defined''"
      "''ReferenceError: google is not defined''" "example_process ''production''"
      example_config example_window]
  by simp

text \<open>A thrown object with an own \<open>toString\<close> property is outside that statement: the
  call \<open>err.toString()\<close> in the condition throws, and that \<open>TypeError\<close> leaves the
  constructor.\<close>

lemma own_toString_leaves_constructor:
  "constructor cfg (Inl (ThrownValue (Obj [(''toString'', Str ''x'')]))) process w
     = (Inl (TypeError ''err.toString is not a function''), w)"
  by (simp add: constructor_def)

theorem swallowed_error_counterexample:
  "fst (constructor example_config (Inl (TypeError ''Cannot read properties of undefined''))
        (example_process ''development'') example_window)
     = Inr \<lparr>config = example_config, serverFunctions = PlainObject []\<rparr>
   \<and> fst (constructor example_config (Inl (ReferenceError ''google is not defined''))
        (example_process ''production'') example_window)
     = Inr \<lparr>config = example_config, serverFunctions = PlainObject []\<rparr>"
  by (simp add: constructor_def)

end
